theory Spec2Isabelle
  imports Main
begin

unbundle bit_operations_syntax

section \<open>The library functions the ledger calls\<close>

subsection \<open>hashlib.sha256(...).hexdigest()\<close>

text \<open>
  \<^verbatim>\<open>blockchain.py\<close> calls \<^verbatim>\<open>hashlib.sha256\<close> of the Python standard library. The function is
  SHA-256 of FIPS 180-4 and is written out here so that digests can be computed: a 32-bit
  word is an \<^typ>\<open>int\<close> in \<open>0 ..< 2^32\<close>, and the wrap-around of the word addition is the
  explicit \<open>mod 4294967296\<close>. The two test vectors below are the digests Python prints for
  \<^verbatim>\<open>b""\<close> and \<^verbatim>\<open>b"abc"\<close>.
\<close>

definition add32 :: "int \<Rightarrow> int \<Rightarrow> int" where
  "add32 x y = (x + y) mod 4294967296"

definition rotr :: "nat \<Rightarrow> int \<Rightarrow> int" where
  "rotr n x = drop_bit n x + push_bit (32 - n) (take_bit n x)"

definition not32 :: "int \<Rightarrow> int" where
  "not32 x = 4294967295 - x"

definition ch :: "int \<Rightarrow> int \<Rightarrow> int \<Rightarrow> int" where
  "ch x y z = (x AND y) XOR (not32 x AND z)"

definition maj :: "int \<Rightarrow> int \<Rightarrow> int \<Rightarrow> int" where
  "maj x y z = (x AND y) XOR (x AND z) XOR (y AND z)"

definition big_sigma0 :: "int \<Rightarrow> int" where
  "big_sigma0 x = rotr 2 x XOR rotr 13 x XOR rotr 22 x"

definition big_sigma1 :: "int \<Rightarrow> int" where
  "big_sigma1 x = rotr 6 x XOR rotr 11 x XOR rotr 25 x"

definition small_sigma0 :: "int \<Rightarrow> int" where
  "small_sigma0 x = rotr 7 x XOR rotr 18 x XOR drop_bit 3 x"

definition small_sigma1 :: "int \<Rightarrow> int" where
  "small_sigma1 x = rotr 17 x XOR rotr 19 x XOR drop_bit 10 x"

text \<open>The round constants: the first 32 bits of the fractional parts of the cube roots of
  the first 64 primes.\<close>

definition round_constants :: "int list" where
  "round_constants =
    [1116352408, 1899447441, 3049323471, 3921009573, 961987163, 1508970993,
     2453635748, 2870763221, 3624381080, 310598401, 607225278, 1426881987,
     1925078388, 2162078206, 2614888103, 3248222580, 3835390401, 4022224774,
     264347078, 604807628, 770255983, 1249150122, 1555081692, 1996064986,
     2554220882, 2821834349, 2952996808, 3210313671, 3336571891, 3584528711,
     113926993, 338241895, 666307205, 773529912, 1294757372, 1396182291,
     1695183700, 1986661051, 2177026350, 2456956037, 2730485921, 2820302411,
     3259730800, 3345764771, 3516065817, 3600352804, 4094571909, 275423344,
     430227734, 506948616, 659060556, 883997877, 958139571, 1322822218,
     1537002063, 1747873779, 1955562222, 2024104815, 2227730452, 2361852424,
     2428436474, 2756734187, 3204031479, 3329325298]"

type_synonym sha_state = "int \<times> int \<times> int \<times> int \<times> int \<times> int \<times> int \<times> int"

text \<open>The initial state: the first 32 bits of the fractional parts of the square roots of
  the first 8 primes.\<close>

definition initial_state :: sha_state where
  "initial_state =
    (1779033703, 3144134277, 1013904242, 2773480762, 1359893119, 2600822924, 528734635,
     1541459225)"

text \<open>The message schedule of one 16-word block, built newest word first.\<close>

fun expand :: "nat \<Rightarrow> int list \<Rightarrow> int list" where
  "expand 0 ws = ws"
| "expand (Suc n) ws =
     expand n
       (add32 (add32 (add32 (small_sigma1 (ws ! 1)) (ws ! 6)) (small_sigma0 (ws ! 14))) (ws ! 15)
        # ws)"

definition schedule :: "int list \<Rightarrow> int list" where
  "schedule block_words = rev (expand 48 (rev block_words))"

fun sha_round :: "sha_state \<Rightarrow> int \<times> int \<Rightarrow> sha_state" where
  "sha_round (a, b, c, d, e, f, g, h) (k, w) =
     (let t1 = add32 (add32 (add32 (add32 h (big_sigma1 e)) (ch e f g)) k) w;
          t2 = add32 (big_sigma0 a) (maj a b c)
      in (add32 t1 t2, a, b, c, add32 d t1, e, f, g))"

fun add_state :: "sha_state \<Rightarrow> sha_state \<Rightarrow> sha_state" where
  "add_state (a, b, c, d, e, f, g, h) (a', b', c', d', e', f', g', h') =
     (add32 a a', add32 b b', add32 c c', add32 d d',
      add32 e e', add32 f f', add32 g g', add32 h h')"

definition compress :: "sha_state \<Rightarrow> int list \<Rightarrow> sha_state" where
  "compress st block_words =
     add_state st (foldl sha_round st (zip round_constants (schedule block_words)))"

fun state_words :: "sha_state \<Rightarrow> int list" where
  "state_words (a, b, c, d, e, f, g, h) = [a, b, c, d, e, f, g, h]"

definition be_word :: "int list \<Rightarrow> int" where
  "be_word bytes = foldl (\<lambda>acc b. 256 * acc + b) 0 bytes"

fun chunks :: "nat \<Rightarrow> 'a list \<Rightarrow> 'a list list" where
  "chunks n [] = []"
| "chunks n xs = (if n = 0 then [] else take n xs # chunks n (drop n xs))"

definition be_bytes :: "nat \<Rightarrow> int \<Rightarrow> int list" where
  "be_bytes k n = map (\<lambda>i. (n div 256 ^ i) mod 256) (rev [0..<k])"

text \<open>Padding: the byte \<open>0x80\<close>, zero bytes up to 56 modulo 64, the bit length in 8 bytes.\<close>

definition sha_pad :: "int list \<Rightarrow> int list" where
  "sha_pad m =
     m @ [128] @ replicate ((119 - length m mod 64) mod 64) 0 @ be_bytes 8 (8 * int (length m))"

fun sha_blocks :: "sha_state \<Rightarrow> int list list \<Rightarrow> sha_state" where
  "sha_blocks st [] = st"
| "sha_blocks st (b # bs) = sha_blocks (compress st (map be_word (chunks 4 b))) bs"

definition hex_digit :: "int \<Rightarrow> char" where
  "hex_digit n = ''0123456789abcdef'' ! nat n"

definition hex_word :: "int \<Rightarrow> string" where
  "hex_word w = map (\<lambda>i. hex_digit ((w div 16 ^ i) mod 16)) (rev [0..<8])"

definition sha256_hexdigest :: "string \<Rightarrow> string" where
  "sha256_hexdigest m =
     concat (map hex_word
       (state_words (sha_blocks initial_state (chunks 64 (sha_pad (map of_char m))))))"

subsection \<open>str(int), str.encode() and json.dumps\<close>

text \<open>
  A Python \<^verbatim>\<open>str\<close> is modelled as a \<^typ>\<open>string\<close> whose characters are the code points
  of the Python string; this covers the strings with code points below 256. A \<^verbatim>\<open>bytes\<close>
  value is a \<^typ>\<open>string\<close> of its bytes.
\<close>

definition digit_char :: "int \<Rightarrow> char" where
  "digit_char n = ''0123456789'' ! nat n"

function digits_of :: "int \<Rightarrow> string" where
  "digits_of n = (if n < 10 then [digit_char n] else digits_of (n div 10) @ [digit_char (n mod 10)])"
  by pat_completeness auto
termination
  by (relation "measure nat") auto

declare digits_of.simps [simp del]

text \<open>\<^verbatim>\<open>str(i)\<close> for an \<^verbatim>\<open>int\<close>: the decimal digits, after a minus sign when negative.\<close>

definition str_int :: "int \<Rightarrow> string" where
  "str_int i = (if i < 0 then CHR ''-'' # digits_of (- i) else digits_of i)"

text \<open>\<^verbatim>\<open>s.encode()\<close>: UTF-8, one byte below 128 and two bytes from 128 to 255.\<close>

definition encode_char :: "char \<Rightarrow> string" where
  "encode_char c =
     (if (of_char c :: int) < 128 then [c]
      else [char_of (192 + (of_char c :: int) div 64), char_of (128 + (of_char c :: int) mod 64)])"

definition encode :: "string \<Rightarrow> string" where
  "encode s = concat (map encode_char s)"

text \<open>
  \<^verbatim>\<open>json.dumps\<close> of a string (with the default \<^verbatim>\<open>ensure_ascii=True\<close>): the quote and the
  backslash are escaped, the control characters 8, 9, 10, 12 and 13 have short escapes, and
  every other character outside the range from space to tilde is written
  \<^verbatim>\<open>\u00xx\<close>.
\<close>

definition json_escape_char :: "char \<Rightarrow> string" where
  "json_escape_char c =
     (let n = (of_char c :: int) in
      if n = 34 then [CHR 0x5C, CHR 0x22]
      else if n = 92 then [CHR 0x5C, CHR 0x5C]
      else if n = 10 then [CHR 0x5C, CHR ''n'']
      else if n = 13 then [CHR 0x5C, CHR ''r'']
      else if n = 9 then [CHR 0x5C, CHR ''t'']
      else if n = 8 then [CHR 0x5C, CHR ''b'']
      else if n = 12 then [CHR 0x5C, CHR ''f'']
      else if n < 32 \<or> 126 < n then
        [CHR 0x5C, CHR ''u'', CHR ''0'', CHR ''0'', hex_digit (n div 16), hex_digit (n mod 16)]
      else [c])"

definition json_string :: "string \<Rightarrow> string" where
  "json_string s = [CHR 0x22] @ concat (map json_escape_char s) @ [CHR 0x22]"

definition json_member :: "string \<Rightarrow> string \<Rightarrow> string" where
  "json_member k v = json_string k @ '': '' @ v"

section \<open>The ledger of blockchain.py\<close>

text \<open>
  A block is the dict that \<^verbatim>\<open>_create_block\<close> builds; its five keys are the fields of the
  record. The attribute \<^verbatim>\<open>self.chain\<close> is the list of blocks and is passed explicitly:
  every method takes the chain and returns the new one. The blocks of the chain are distinct
  dict objects (each comes from its own \<^verbatim>\<open>_create_block\<close> call), so an in-place update
  of one block is the list update at its position.
\<close>

record block =
  blk_index :: int
  blk_timestamp :: string
  blk_data :: string
  blk_proof :: int
  blk_previous_hash :: string

datatype error = IndexError

text \<open>\<^verbatim>\<open>_create_block\<close>; \<open>now\<close> is the value of \<^verbatim>\<open>str(datetime.now())\<close> at the call.\<close>

definition create_block :: "string \<Rightarrow> string \<Rightarrow> int \<Rightarrow> string \<Rightarrow> int \<Rightarrow> block" where
  "create_block now data proof previous_hash index =
     \<lparr>blk_index = index, blk_timestamp = now, blk_data = data, blk_proof = proof,
      blk_previous_hash = previous_hash\<rparr>"

text \<open>\<^verbatim>\<open>__init__\<close>: the local \<^verbatim>\<open>initial_block\<close> and the chain of a new ledger.\<close>

definition initial_block :: "string \<Rightarrow> block" where
  "initial_block now = create_block now ''genesis block'' 1 ''0'' 1"

definition init :: "string \<Rightarrow> block list" where
  "init now = [] @ [initial_block now]"

text \<open>\<^verbatim>\<open>get_previous_block\<close>: \<^verbatim>\<open>self.chain[-1]\<close> raises on the empty list.\<close>

definition get_previous_block :: "block list \<Rightarrow> error + block" where
  "get_previous_block chain = (if chain = [] then Inl IndexError else Inr (last chain))"

definition to_digest :: "int \<Rightarrow> int \<Rightarrow> int \<Rightarrow> string \<Rightarrow> string" where
  "to_digest new_proof previous_proof index data =
     encode (str_int (new_proof ^ 2 - previous_proof ^ 2 + index) @ data)"

text \<open>The local \<^verbatim>\<open>hash_operation\<close> of \<^verbatim>\<open>_proof_of_work\<close> and of \<^verbatim>\<open>validate_block\<close>.\<close>

definition hash_operation :: "int \<Rightarrow> int \<Rightarrow> int \<Rightarrow> string \<Rightarrow> string" where
  "hash_operation new_proof previous_proof index data =
     sha256_hexdigest (to_digest new_proof previous_proof index data)"

text \<open>
  The \<^verbatim>\<open>while\<close> loop of \<^verbatim>\<open>_proof_of_work\<close>, entered with \<^verbatim>\<open>new_proof\<close>. It has no bound:
  the value \<open>None\<close> stands for a search that never ends.
\<close>

partial_function (option) proof_of_work_loop :: "int \<Rightarrow> int \<Rightarrow> int \<Rightarrow> string \<Rightarrow> int option" where
  "proof_of_work_loop new_proof previous_proof index data =
     (if take 4 (hash_operation new_proof previous_proof index data) = ''0000''
      then Some new_proof
      else proof_of_work_loop (new_proof + 1) previous_proof index data)"

declare proof_of_work_loop.simps [code]

definition proof_of_work :: "int \<Rightarrow> int \<Rightarrow> string \<Rightarrow> int option" where
  "proof_of_work previous_proof index data = proof_of_work_loop 1 previous_proof index data"

text \<open>\<^verbatim>\<open>json.dumps(block, sort_keys=True)\<close>: the keys in alphabetical order.\<close>

definition json_dumps :: "block \<Rightarrow> string" where
  "json_dumps block =
     ''{'' @ json_member ''data'' (json_string (blk_data block)) @ '', ''
       @ json_member ''index'' (str_int (blk_index block)) @ '', ''
       @ json_member ''previous_hash'' (json_string (blk_previous_hash block)) @ '', ''
       @ json_member ''proof'' (str_int (blk_proof block)) @ '', ''
       @ json_member ''timestamp'' (json_string (blk_timestamp block)) @ ''}''"

text \<open>\<^verbatim>\<open>_hash\<close>.\<close>

definition hash :: "block \<Rightarrow> string" where
  "hash block = sha256_hexdigest (encode (json_dumps block))"

definition validate_block :: "block \<Rightarrow> block \<Rightarrow> bool" where
  "validate_block block previous_block =
     (if blk_previous_hash block \<noteq> hash previous_block then False
      else if take 4 (hash_operation (blk_proof block) (blk_proof previous_block)
                        (blk_index block) (blk_data block)) \<noteq> ''0000''
      then False
      else True)"

text \<open>The loop of \<^verbatim>\<open>is_chain_valid\<close> over the positions of \<^verbatim>\<open>range(1, len(self.chain))\<close>.\<close>

fun is_chain_valid_loop :: "nat list \<Rightarrow> block list \<Rightarrow> bool" where
  "is_chain_valid_loop [] chain = True"
| "is_chain_valid_loop (i # positions) chain =
     (if \<not> validate_block (chain ! i) (chain ! (i - 1)) then False
      else is_chain_valid_loop positions chain)"

definition is_chain_valid :: "block list \<Rightarrow> bool" where
  "is_chain_valid chain = is_chain_valid_loop [1..<length chain] chain"

text \<open>
  \<^verbatim>\<open>mine_block\<close> returns the new block and the new chain, raises when the chain is empty
  and does not return when the search does not.
\<close>

definition mine_block :: "string \<Rightarrow> string \<Rightarrow> block list \<Rightarrow> (error + block \<times> block list) option" where
  "mine_block now data chain =
     (case get_previous_block chain of
        Inl e \<Rightarrow> Some (Inl e)
      | Inr previous_block \<Rightarrow>
          (let previous_proof = blk_proof previous_block;
               index = int (length chain) + 1
           in case proof_of_work previous_proof index data of
                None \<Rightarrow> None
              | Some proof \<Rightarrow>
                  (let previous_hash = hash previous_block;
                       block = create_block now data proof previous_hash index
                   in Some (Inr (block, chain @ [block])))))"

text \<open>
  The second loop of \<^verbatim>\<open>delete_block\<close>, over the positions of
  \<^verbatim>\<open>range(len(self.chain) - 1, 0, -1)\<close>: each block gets the hash of the block before it
  and a new proof.
\<close>

fun repair_loop :: "nat list \<Rightarrow> block list \<Rightarrow> block list option" where
  "repair_loop [] chain = Some chain"
| "repair_loop (i # positions) chain =
     (let current_block = chain ! i;
          previous_block = chain ! (i - 1)
      in case proof_of_work (blk_proof previous_block) (blk_index current_block)
                (blk_data current_block) of
           None \<Rightarrow> None
         | Some proof \<Rightarrow>
             repair_loop positions
               (chain[i := current_block\<lparr>blk_previous_hash := hash previous_block,
                                          blk_proof := proof\<rparr>]))"

text \<open>
  \<^verbatim>\<open>delete_block\<close> returns the new chain and the lines it printed. The first loop is the
  search for the first block with the given proof; \<^verbatim>\<open>list.remove\<close> removes the first
  element equal to the block found; the \<^verbatim>\<open>else\<close> of the second loop runs whenever that loop
  ends, since the loop has no \<^verbatim>\<open>break\<close>.
\<close>

definition delete_block :: "int \<Rightarrow> block list \<Rightarrow> (block list \<times> string list) option" where
  "delete_block proof chain =
     (case find (\<lambda>block. blk_proof block = proof) chain of
        None \<Rightarrow> Some (chain, [])
      | Some block_to_delete \<Rightarrow>
          (let chain' = remove1 block_to_delete chain
           in case repair_loop (rev [1..<length chain']) chain' of
                None \<Rightarrow> None
              | Some chain'' \<Rightarrow> Some (chain'', [''!FAILED!''])))"

text \<open>\<^verbatim>\<open>clear\<close>: \<^verbatim>\<open>self.chain[0]\<close> raises on the empty list.\<close>

definition clear :: "block list \<Rightarrow> error + block list" where
  "clear chain = (case chain of [] \<Rightarrow> Inl IndexError | first # rest \<Rightarrow> Inr [first])"

text \<open>
  The states of a ledger created at time \<open>t0\<close>: what a sequence of calls of
  \<^verbatim>\<open>mine_block\<close>, \<^verbatim>\<open>delete_block\<close> and \<^verbatim>\<open>clear\<close> that return can leave in
  \<^verbatim>\<open>self.chain\<close>. A call that raises leaves the chain as it was.
\<close>

inductive reachable :: "string \<Rightarrow> block list \<Rightarrow> bool" for t0 :: string where
  reachable_init: "reachable t0 (init t0)"
| reachable_mine_block:
    "reachable t0 chain \<Longrightarrow> mine_block now data chain = Some (Inr (block, chain'))
     \<Longrightarrow> reachable t0 chain'"
| reachable_delete_block:
    "reachable t0 chain \<Longrightarrow> delete_block proof chain = Some (chain', printed)
     \<Longrightarrow> reachable t0 chain'"
| reachable_clear:
    "reachable t0 chain \<Longrightarrow> clear chain = Inr chain' \<Longrightarrow> reachable t0 chain'"


text \<open>
  A block is sealed against the block before it when it holds what a step of the second loop
  of \<^verbatim>\<open>delete_block\<close> writes into it: the hash of that block and the proof that the search
  returns.
\<close>

definition sealed :: "block \<Rightarrow> block \<Rightarrow> bool" where
  "sealed block previous_block \<longleftrightarrow>
     blk_previous_hash block = hash previous_block \<and>
     proof_of_work (blk_proof previous_block) (blk_index block) (blk_data block)
       = Some (blk_proof block)"

subsection \<open>A run of the ledger\<close>

text \<open>
  The blocks of one run: a ledger created at 10:00, then
  \<^verbatim>\<open>mine_block("alice-111529")\<close>, \<^verbatim>\<open>mine_block("bob-31286")\<close>,
  \<^verbatim>\<open>mine_block("carol-57407")\<close>, \<^verbatim>\<open>delete_block(2)\<close>, \<^verbatim>\<open>mine_block("dave-8728")\<close>
  and \<^verbatim>\<open>delete_block(3)\<close>. The data strings are chosen so that every search ends
  within three steps.
\<close>

definition run_genesis :: block where
  "run_genesis = initial_block ''2024-01-01 10:00:00.000000''"

definition run_alice :: block where
  "run_alice =
     create_block ''2024-01-01 10:01:00.000000'' ''alice-111529'' 2 (hash run_genesis) 2"

definition run_bob :: block where
  "run_bob = create_block ''2024-01-01 10:02:00.000000'' ''bob-31286'' 2 (hash run_alice) 3"

definition run_carol :: block where
  "run_carol = create_block ''2024-01-01 10:03:00.000000'' ''carol-57407'' 2 (hash run_bob) 4"

text \<open>The block of bob after \<^verbatim>\<open>delete_block(2)\<close> has removed the block of alice.\<close>

definition run_bob_resealed :: block where
  "run_bob_resealed = run_bob\<lparr>blk_previous_hash := hash run_genesis, blk_proof := 1\<rparr>"

definition run_dave :: block where
  "run_dave = create_block ''2024-01-01 10:04:00.000000'' ''dave-8728'' 3 (hash run_carol) 4"

text \<open>The block of carol after \<^verbatim>\<open>delete_block(3)\<close> has removed the block of dave.\<close>

definition run_carol_resealed :: block where
  "run_carol_resealed =
     run_carol\<lparr>blk_previous_hash := hash run_bob_resealed, blk_proof := 1\<rparr>"


section \<open>Digests computed\<close>

text \<open>The digests Python prints for \<^verbatim>\<open>b""\<close> and \<^verbatim>\<open>b"abc"\<close>, and \<^verbatim>\<open>_hash\<close> of a genesis
  block.\<close>

lemma sha256_empty:
  "sha256_hexdigest [] = ''e3b0c44298fc1c149afbf4c8996fb92427ae41e4649b934ca495991b7852b855''"
  by code_simp

lemma sha256_abc:
  "sha256_hexdigest ''abc'' = ''ba7816bf8f01cfea414140de5dae2223b00361a396177a9cb410ff61f20015ad''"
  by code_simp

lemma hash_run_genesis:
  "hash run_genesis = ''f3ec17ec9611ee818742f9fd612a9668374402af97392a72877fb673b6288102''"
  by code_simp

text \<open>The digests that the searches of the run compute.\<close>

lemma sha256_2alice_111529:
  "sha256_hexdigest ''2alice-111529'' =
     ''e16c425263a6c181cbc9791b78beefd0c46e70708dcf17e775d8ab9ca0697034''"
  by code_simp

lemma sha256_5alice_111529:
  "sha256_hexdigest ''5alice-111529'' =
     ''0000e5ac4285485522cb294ef17652f2add6668ee199f158b0423674ed57a265''"
  by code_simp

lemma sha256_0bob_31286:
  "sha256_hexdigest ''0bob-31286'' =
     ''f0369a00904ebb06452acb1c925ad844d833f96b891eeddb39e731cd6d1889dc''"
  by code_simp

lemma sha256_3bob_31286:
  "sha256_hexdigest ''3bob-31286'' =
     ''00005651f24acb3c2c0790c5ec7862f993f1e7bd20b6712b3ec74b8ce2bcb27d''"
  by code_simp

lemma sha256_1carol_57407:
  "sha256_hexdigest ''1carol-57407'' =
     ''ee5e61311e0a6e9c2ee3c0217fc967e1743cc7b989844411ecfa18abf716144f''"
  by code_simp

lemma sha256_4carol_57407:
  "sha256_hexdigest ''4carol-57407'' =
     ''0000b01541cc78948a329b9052f4cdf79e8197e8c8a4ed31bb2e1e7889466427''"
  by code_simp

lemma sha256_7carol_57407:
  "sha256_hexdigest ''7carol-57407'' =
     ''d5f765b9154a6c84d7b6d9bdb0995214338f57702549a2b4ab2609ae25da358b''"
  by code_simp

lemma sha256_1dave_8728:
  "sha256_hexdigest ''1dave-8728'' =
     ''b30f5f2e616505fc642caf8bbd0fa0ceb72b21f1f7616a0f8464f493f09e37ae''"
  by code_simp

lemma sha256_4dave_8728:
  "sha256_hexdigest ''4dave-8728'' =
     ''7e1d7987d2aaa786df8580241c6ddfef255fad4846d5bb61dc07979e96138205''"
  by code_simp

lemma sha256_9dave_8728:
  "sha256_hexdigest ''9dave-8728'' =
     ''00000e69250428349ee7f147cee48bb513d662cbc4415410f0d8b2eff89937aa''"
  by code_simp

text \<open>The digests of a search that passes over the proof 0.\<close>

lemma sha256_1pay_1499938139:
  "sha256_hexdigest ''1pay-1499938139'' =
     ''00004a46643d0adb1fdaf53cda6e5b5a4deeaeb472732a8961383aca8064cb88''"
  by code_simp

lemma sha256_2pay_1499938139:
  "sha256_hexdigest ''2pay-1499938139'' =
     ''3dbb06ec479a7d0b09a07dd0e2f92747533373e2bc04ca841f317edcc8a59f24''"
  by code_simp

lemma sha256_5pay_1499938139:
  "sha256_hexdigest ''5pay-1499938139'' =
     ''0000d5b64676a93bc744eca8f4127ce47016c706eab64f40bb198c4c5d1de00a''"
  by code_simp

text \<open>The digests of two altered blocks.\<close>

lemma sha256_5mallory_7988:
  "sha256_hexdigest ''5mallory-7988'' =
     ''0000673485bb36abd5fda16430102736a96fc9941663fc193ccae0409684146a''"
  by code_simp

lemma sha256_17173alice_111529:
  "sha256_hexdigest ''17173alice-111529'' =
     ''00005ab1d8eea7b875c9848943f26d4f4f376424720b2e2f8e4b8626bb8cc143''"
  by code_simp

lemmas run_digests = sha256_5mallory_7988 sha256_17173alice_111529
  sha256_2alice_111529 sha256_5alice_111529 sha256_0bob_31286 sha256_3bob_31286
  sha256_1carol_57407 sha256_4carol_57407 sha256_7carol_57407 sha256_1dave_8728
  sha256_4dave_8728 sha256_9dave_8728 sha256_1pay_1499938139 sha256_2pay_1499938139
  sha256_5pay_1499938139

section \<open>The runs of the methods\<close>

subsection \<open>The proof-of-work search\<close>

text \<open>What the search returns: the first proof from its starting point on that meets the
  work condition.\<close>

lemma proof_of_work_loop_sound:
  assumes "proof_of_work_loop n previous_proof index data = Some p"
  shows "n \<le> p \<and> take 4 (hash_operation p previous_proof index data) = ''0000'' \<and>
         (\<forall>q. n \<le> q \<and> q < p \<longrightarrow>
              take 4 (hash_operation q previous_proof index data) \<noteq> ''0000'')"
  using assms
proof (induction rule: proof_of_work_loop.raw_induct [rotated 1, consumes 1])
  case (1 loop n previous_proof index data p)
  show ?case
  proof (cases "take 4 (hash_operation n previous_proof index data) = ''0000''")
    case True
    with 1(2) have "p = n" by simp
    with True show ?thesis by auto
  next
    case False
    with 1(2) have "loop (n + 1) previous_proof index data = Some p" by simp
    from 1(1) [OF this]
    have ih: "n + 1 \<le> p" "take 4 (hash_operation p previous_proof index data) = ''0000''"
      "\<forall>q. n + 1 \<le> q \<and> q < p \<longrightarrow>
           take 4 (hash_operation q previous_proof index data) \<noteq> ''0000''"
      by auto
    have "take 4 (hash_operation q previous_proof index data) \<noteq> ''0000''"
      if "n \<le> q" "q < p" for q
    proof (cases "q = n")
      case True
      with False show ?thesis by simp
    next
      case False
      with that have "n + 1 \<le> q" by simp
      with ih(3) that show ?thesis by blast
    qed
    with ih show ?thesis by auto
  qed
qed

text \<open>The search ends as soon as some proof from its starting point on meets the work
  condition.\<close>

lemma proof_of_work_loop_complete:
  assumes "take 4 (hash_operation p previous_proof index data) = ''0000''" and "n \<le> p"
  shows "\<exists>p'. proof_of_work_loop n previous_proof index data = Some p'"
  using assms
proof (induction "nat (p - n)" arbitrary: n)
  case 0
  then have "n = p" by simp
  with 0 show ?case by (subst proof_of_work_loop.simps) simp
next
  case (Suc k)
  show ?case
  proof (cases "take 4 (hash_operation n previous_proof index data) = ''0000''")
    case True
    then show ?thesis by (subst proof_of_work_loop.simps) simp
  next
    case False
    from Suc(2) have "k = nat (p - (n + 1))" "n + 1 \<le> p" by auto
    from Suc(1) [OF this(1) Suc(3) this(2)]
    obtain p' where "proof_of_work_loop (n + 1) previous_proof index data = Some p'" by blast
    with False show ?thesis by (subst proof_of_work_loop.simps) simp
  qed
qed

lemma proof_of_work_returns:
  assumes "1 \<le> p" and "take 4 (hash_operation p previous_proof index data) = ''0000''"
  obtains p' where "proof_of_work previous_proof index data = Some p'"
    and "1 \<le> p'" and "take 4 (hash_operation p' previous_proof index data) = ''0000''"
proof -
  from proof_of_work_loop_complete [OF assms(2) assms(1)]
  obtain p' where p': "proof_of_work_loop 1 previous_proof index data = Some p'" by blast
  from proof_of_work_loop_sound [OF p'] p' that show thesis
    by (simp add: proof_of_work_def)
qed

subsection \<open>Validation\<close>

lemma validate_block_iff:
  "validate_block block previous_block \<longleftrightarrow>
     blk_previous_hash block = hash previous_block \<and>
     take 4 (hash_operation (blk_proof block) (blk_proof previous_block) (blk_index block)
               (blk_data block)) = ''0000''"
  by (simp add: validate_block_def)

lemma is_chain_valid_loop_iff:
  "is_chain_valid_loop positions chain \<longleftrightarrow>
     (\<forall>i \<in> set positions. validate_block (chain ! i) (chain ! (i - 1)))"
  by (induction positions) auto

lemma is_chain_valid_iff:
  "is_chain_valid chain \<longleftrightarrow>
     (\<forall>i. 0 < i \<and> i < length chain \<longrightarrow> validate_block (chain ! i) (chain ! (i - 1)))"
  by (auto simp: is_chain_valid_def is_chain_valid_loop_iff)

lemma is_chain_valid_update:
  assumes "is_chain_valid chain" and "0 < i" and "i < length chain"
  shows "is_chain_valid (chain[i := block']) \<longleftrightarrow>
           validate_block block' (chain ! (i - 1)) \<and>
           (i + 1 < length chain \<longrightarrow> validate_block (chain ! (i + 1)) block')"
proof
  assume v: "is_chain_valid (chain[i := block'])"
  from v have all: "validate_block (chain[i := block'] ! j) (chain[i := block'] ! (j - 1))"
    if "0 < j" "j < length chain" for j
    using that by (simp add: is_chain_valid_iff)
  from all [of i] assms(2,3) have a: "validate_block block' (chain ! (i - 1))" by simp
  have "validate_block (chain ! (i + 1)) block'" if "i + 1 < length chain"
    using all [of "i + 1"] that by simp
  with a show "validate_block block' (chain ! (i - 1)) \<and>
    (i + 1 < length chain \<longrightarrow> validate_block (chain ! (i + 1)) block')" by blast
next
  assume r: "validate_block block' (chain ! (i - 1)) \<and>
    (i + 1 < length chain \<longrightarrow> validate_block (chain ! (i + 1)) block')"
  have "validate_block (chain[i := block'] ! j) (chain[i := block'] ! (j - 1))"
    if "0 < j" "j < length (chain[i := block'])" for j
  proof -
    consider "j = i" | "j = i + 1" | "j \<noteq> i" "j \<noteq> i + 1" by blast
    then show ?thesis
    proof cases
      case 1
      with r assms(2,3) show ?thesis by simp
    next
      case 2
      with r that assms(3) show ?thesis by simp
    next
      case 3
      with that have "j - 1 \<noteq> i" by arith
      with 3 that assms(1) show ?thesis by (simp add: is_chain_valid_iff)
    qed
  qed
  then show "is_chain_valid (chain[i := block'])" by (simp add: is_chain_valid_iff)
qed

subsection \<open>The length of a digest\<close>

lemma length_state_words: "length (state_words st) = 8"
  by (induction st rule: state_words.induct) simp

lemma length_hex_word: "length (hex_word w) = 8"
  by (simp add: hex_word_def)

lemma length_sha256_hexdigest: "length (sha256_hexdigest m) = 64"
proof -
  have "length (concat (map hex_word ws)) = 8 * length ws" for ws
    by (induction ws) (simp_all add: length_hex_word)
  then show ?thesis by (simp add: sha256_hexdigest_def length_state_words)
qed

lemma length_hash: "length (hash block) = 64"
  by (simp add: hash_def length_sha256_hexdigest)

lemma hash_not_0: "hash block \<noteq> ''0''"
proof
  assume "hash block = ''0''"
  then have "length (hash block) = 1" by simp
  with length_hash [of block] show False by simp
qed

subsection \<open>The two loops of delete_block\<close>







text \<open>A block that \<^verbatim>\<open>mine_block\<close> appends is sealed against the old last block.\<close>

lemma mine_block_sealed:
  assumes "mine_block now data chain = Some (Inr (block, chain'))"
  shows "sealed block (last chain)"
  using assms
  by (auto simp: mine_block_def get_previous_block_def Let_def sealed_def create_block_def
           split: if_splits option.splits)




subsection \<open>The run\<close>

lemmas digest_eval = hash_operation_def to_digest_def str_int_def digits_of.simps digit_char_def
  encode_def encode_char_def

lemma pow_alice: "proof_of_work 1 2 ''alice-111529'' = Some 2"
  by (simp add: proof_of_work_def proof_of_work_loop.simps digest_eval run_digests)

lemma pow_bob: "proof_of_work 2 3 ''bob-31286'' = Some 2"
  by (simp add: proof_of_work_def proof_of_work_loop.simps digest_eval run_digests)

lemma pow_bob_resealed: "proof_of_work 1 3 ''bob-31286'' = Some 1"
  by (simp add: proof_of_work_def proof_of_work_loop.simps digest_eval run_digests)

lemma pow_carol: "proof_of_work 2 4 ''carol-57407'' = Some 2"
  by (simp add: proof_of_work_def proof_of_work_loop.simps digest_eval run_digests)


lemma pow_dave: "proof_of_work 2 4 ''dave-8728'' = Some 3"
  by (simp add: proof_of_work_def proof_of_work_loop.simps digest_eval run_digests)

lemma pow_pay: "proof_of_work 1 2 ''pay-1499938139'' = Some 2"
  by (simp add: proof_of_work_def proof_of_work_loop.simps digest_eval run_digests)

lemmas run_blocks = run_genesis_def run_alice_def run_bob_def run_carol_def run_dave_def
  run_bob_resealed_def run_carol_resealed_def initial_block_def create_block_def

lemma run_init: "init ''2024-01-01 10:00:00.000000'' = [run_genesis]"
  by (simp add: init_def run_genesis_def)

lemma run_mine_alice:
  "mine_block ''2024-01-01 10:01:00.000000'' ''alice-111529'' [run_genesis]
     = Some (Inr (run_alice, [run_genesis, run_alice]))"
  by (simp add: mine_block_def Let_def get_previous_block_def run_blocks pow_alice)

lemma run_mine_bob:
  "mine_block ''2024-01-01 10:02:00.000000'' ''bob-31286'' [run_genesis, run_alice]
     = Some (Inr (run_bob, [run_genesis, run_alice, run_bob]))"
  by (simp add: mine_block_def Let_def get_previous_block_def run_blocks pow_bob)

lemma run_mine_carol:
  "mine_block ''2024-01-01 10:03:00.000000'' ''carol-57407'' [run_genesis, run_alice, run_bob]
     = Some (Inr (run_carol, [run_genesis, run_alice, run_bob, run_carol]))"
  by (simp add: mine_block_def Let_def get_previous_block_def run_blocks pow_carol)

lemma run_delete_alice:
  "delete_block 2 [run_genesis, run_alice, run_bob, run_carol]
     = Some ([run_genesis, run_bob_resealed, run_carol], [''!FAILED!''])"
  by (simp add: delete_block_def Let_def run_blocks pow_carol pow_bob_resealed)



lemma run_valid_alice: "is_chain_valid [run_genesis, run_alice]"
  by (simp add: is_chain_valid_def validate_block_def run_blocks digest_eval run_digests)

lemma run_valid_carol: "is_chain_valid [run_genesis, run_alice, run_bob, run_carol]"
  by (simp add: is_chain_valid_def validate_block_def run_blocks digest_eval run_digests)

lemma run_invalid_resealed: "\<not> is_chain_valid [run_genesis, run_bob_resealed, run_carol]"
  by (simp add: is_chain_valid_def validate_block_def run_blocks digest_eval run_digests)

lemma run_reachable_alice: "reachable ''2024-01-01 10:00:00.000000'' [run_genesis, run_alice]"
  using reachable_mine_block [OF reachable_init, of _ _ "''2024-01-01 10:00:00.000000''"]
    run_mine_alice
  by (simp add: run_init)

lemma run_reachable_bob:
  "reachable ''2024-01-01 10:00:00.000000'' [run_genesis, run_alice, run_bob]"
  using reachable_mine_block [OF run_reachable_alice run_mine_bob] .

lemma run_reachable_carol:
  "reachable ''2024-01-01 10:00:00.000000'' [run_genesis, run_alice, run_bob, run_carol]"
  using reachable_mine_block [OF run_reachable_bob run_mine_carol] .








subsection \<open>mine_block on a chain that is not empty\<close>

text \<open>
  \<^verbatim>\<open>mine_block(data)\<close> on a chain that is not empty and is valid, for data for which
  some proof from 1 on meets the work condition (the search returns exactly then): the call
  returns, the chain is one block longer, the block returned is the block appended, its index
  is the old length plus 1, its previous hash is the hash of the old last block, and the new
  chain is valid.
\<close>

lemma mine_block_appends:
  assumes "chain \<noteq> []" and "is_chain_valid chain" and "1 \<le> p"
    and "take 4 (hash_operation p (blk_proof (last chain)) (int (length chain) + 1) data)
           = ''0000''"
  shows "\<exists>block. mine_block now data chain = Some (Inr (block, chain @ [block])) \<and>
           length (chain @ [block]) = length chain + 1 \<and>
           blk_index block = int (length chain) + 1 \<and>
           blk_previous_hash block = hash (last chain) \<and>
           is_chain_valid (chain @ [block])"
proof -
  from proof_of_work_returns [OF assms(3,4)]
  obtain p' where
    p': "proof_of_work (blk_proof (last chain)) (int (length chain) + 1) data = Some p'" and
    ok: "take 4 (hash_operation p' (blk_proof (last chain)) (int (length chain) + 1) data)
           = ''0000''"
    by blast
  define block where
    "block = create_block now data p' (hash (last chain)) (int (length chain) + 1)"
  have mined: "mine_block now data chain = Some (Inr (block, chain @ [block]))"
    using assms(1) p' by (simp add: mine_block_def Let_def get_previous_block_def block_def)
  have "validate_block ((chain @ [block]) ! i) ((chain @ [block]) ! (i - 1))"
    if "0 < i" "i < length (chain @ [block])" for i
  proof (cases "i < length chain")
    case True
    with that assms(2) have "validate_block (chain ! i) (chain ! (i - 1))"
      by (simp add: is_chain_valid_iff)
    moreover from True that have "i - 1 < length chain" by simp
    ultimately show ?thesis using True by (simp add: nth_append)
  next
    case False
    with that have i: "i = length chain" by simp
    with assms(1) have "(chain @ [block]) ! (i - 1) = last chain"
      by (simp add: nth_append last_conv_nth)
    with i ok show ?thesis
      by (simp add: validate_block_iff block_def create_block_def)
  qed
  then have "is_chain_valid (chain @ [block])"
    by (simp add: is_chain_valid_iff)
  with mined show ?thesis
    by (auto simp: block_def create_block_def)
qed

lemma mine_block_appends_run:
  "[run_genesis] \<noteq> [] \<and> is_chain_valid [run_genesis] \<and> (1 :: int) \<le> 2 \<and>
   take 4 (hash_operation 2 (blk_proof (last [run_genesis])) (int (length [run_genesis]) + 1)
             ''alice-111529'') = ''0000'' \<and>
   (\<exists>block. mine_block ''2024-01-01 10:01:00.000000'' ''alice-111529'' [run_genesis]
              = Some (Inr (block, [run_genesis] @ [block])) \<and>
            length ([run_genesis] @ [block]) = length [run_genesis] + 1 \<and>
            blk_index block = int (length [run_genesis]) + 1 \<and>
            blk_previous_hash block = hash (last [run_genesis]) \<and>
            is_chain_valid ([run_genesis] @ [block]))"
proof -
  have h1: "[run_genesis] \<noteq> []" by simp
  have h2: "is_chain_valid [run_genesis]" by (simp add: is_chain_valid_def)
  have h3: "(1 :: int) \<le> 2" by simp
  have h4: "take 4 (hash_operation 2 (blk_proof (last [run_genesis]))
                      (int (length [run_genesis]) + 1) ''alice-111529'') = ''0000''"
    by (simp add: run_blocks digest_eval run_digests)
  from mine_block_appends [OF h1 h2 h3 h4, of "''2024-01-01 10:01:00.000000''"] h1 h2 h3 h4
  show ?thesis by blast
qed

section \<open>The claims\<close>

text \<open>
  C1. The code does not do what the claim says. The run: a new ledger,
  \<^verbatim>\<open>mine_block("alice-111529")\<close>, \<^verbatim>\<open>mine_block("bob-31286")\<close>, \<^verbatim>\<open>mine_block("carol-57407")\<close>
  give a valid chain of the genesis block and three mined blocks with the proofs 2, 2
  and 2; \<^verbatim>\<open>delete_block(2)\<close> removes the first mined block, the chain is one block
  shorter, and \<^verbatim>\<open>is_chain_valid\<close> returns false: the loop walks from the last block
  down, so the block of carol is sealed against the block of bob before the block of bob gets
  its new proof.
\<close>

theorem delete_block_breaks_chain:
  "reachable ''2024-01-01 10:00:00.000000'' [run_genesis, run_alice, run_bob, run_carol] \<and>
   is_chain_valid [run_genesis, run_alice, run_bob, run_carol] \<and>
   find (\<lambda>block. blk_proof block = 2) [run_genesis, run_alice, run_bob, run_carol]
     = Some run_alice \<and>
   delete_block 2 [run_genesis, run_alice, run_bob, run_carol]
     = Some ([run_genesis, run_bob_resealed, run_carol], [''!FAILED!'']) \<and>
   length [run_genesis, run_bob_resealed, run_carol] + 1
     = length [run_genesis, run_alice, run_bob, run_carol] \<and>
   \<not> is_chain_valid [run_genesis, run_bob_resealed, run_carol]"
proof -
  have "find (\<lambda>block. blk_proof block = 2) [run_genesis, run_alice, run_bob, run_carol]
          = Some run_alice"
    by (simp add: run_blocks)
  with run_reachable_carol run_valid_carol run_delete_alice run_invalid_resealed
  show ?thesis by simp
qed

text \<open>
  C2. The code does not do what the claim says. The genesis block has the proof 1, and
  \<^verbatim>\<open>delete_block(1)\<close> on a new ledger finds it and removes it: the chain is empty, and from
  then on \<^verbatim>\<open>mine_block\<close> and \<^verbatim>\<open>clear\<close> raise.
\<close>

theorem delete_block_removes_genesis:
  "delete_block 1 (init t0) = Some ([], [''!FAILED!'']) \<and> reachable t0 [] \<and>
   mine_block now data [] = Some (Inl IndexError) \<and> clear [] = Inl IndexError"
proof -
  have d: "delete_block 1 (init t0) = Some ([], [''!FAILED!''])"
    by (simp add: delete_block_def Let_def init_def initial_block_def create_block_def)
  from reachable_delete_block [OF reachable_init d] have "reachable t0 []" .
  with d show ?thesis
    by (simp add: mine_block_def get_previous_block_def clear_def)
qed




text \<open>
  C4, as stated, fails: the search starts at 1. For \<^verbatim>\<open>mine_block("pay-1499938139")\<close> on a
  new ledger (previous proof 1, index 2) the proof 0 meets the work condition, and the
  search returns 2.
\<close>

theorem proof_of_work_skips_zero:
  "proof_of_work 1 2 ''pay-1499938139'' = Some 2 \<and>
   take 4 (sha256_hexdigest (encode (str_int (0 ^ 2 - 1 ^ 2 + 2) @ ''pay-1499938139'')))
     = ''0000''"
  by (simp add: pow_pay str_int_def digits_of.simps digit_char_def encode_def encode_char_def
        run_digests)

text \<open>
  C4, amended. When \<^verbatim>\<open>_proof_of_work(previous_proof, index, data)\<close> returns, its result is
  the smallest integer \<open>proof \<ge> 1\<close> for which the SHA-256 hex digest of the decimal string of
  \<open>proof\<^sup>2 - previous_proof\<^sup>2 + index\<close> followed by the data starts with \<^verbatim>\<open>"0000"\<close>; the
  result is a function of the three inputs.
\<close>

theorem proof_of_work_least:
  assumes "proof_of_work previous_proof index data = Some p"
  shows "1 \<le> p \<and>
         take 4 (sha256_hexdigest (encode (str_int (p ^ 2 - previous_proof ^ 2 + index) @ data)))
           = ''0000'' \<and>
         (\<forall>q. 1 \<le> q \<and> q < p \<longrightarrow>
            take 4 (sha256_hexdigest
                      (encode (str_int (q ^ 2 - previous_proof ^ 2 + index) @ data))) \<noteq> ''0000'')"
  using proof_of_work_loop_sound [of 1 previous_proof index data p] assms
  by (simp add: proof_of_work_def hash_operation_def to_digest_def)

theorem proof_of_work_least_witness:
  "proof_of_work 2 4 ''dave-8728'' = Some 3 \<and> (1 :: int) \<le> 3 \<and>
   take 4 (sha256_hexdigest (encode (str_int (3 ^ 2 - 2 ^ 2 + 4) @ ''dave-8728''))) = ''0000'' \<and>
   take 4 (sha256_hexdigest (encode (str_int (1 ^ 2 - 2 ^ 2 + 4) @ ''dave-8728''))) \<noteq> ''0000'' \<and>
   take 4 (sha256_hexdigest (encode (str_int (2 ^ 2 - 2 ^ 2 + 4) @ ''dave-8728''))) \<noteq> ''0000''"
proof -
  from proof_of_work_least [OF pow_dave]
  have "1 \<le> (3 :: int)"
    and "take 4 (sha256_hexdigest (encode (str_int (3 ^ 2 - 2 ^ 2 + 4) @ ''dave-8728''))) = ''0000''"
    and "\<And>q. 1 \<le> q \<Longrightarrow> q < 3 \<Longrightarrow>
           take 4 (sha256_hexdigest (encode (str_int (q ^ 2 - 2 ^ 2 + 4) @ ''dave-8728'')))
             \<noteq> ''0000''"
    by blast+
  from this(1,2) this(3) [of 1] this(3) [of 2] pow_dave show ?thesis by simp
qed

text \<open>
  C5, as stated, fails: in the valid chain of the genesis block and the block of alice, the
  last block can get another timestamp, the proof \<open>-2\<close> for 2, the data
  \<^verbatim>\<open>"mallory-7988"\<close> or the index 17170, and \<^verbatim>\<open>is_chain_valid\<close> still returns true.
\<close>

theorem tampered_last_block_valid:
  "is_chain_valid [run_genesis, run_alice] \<and>
   blk_timestamp run_alice \<noteq> ''1999-12-31 23:59:59.000000'' \<and>
   is_chain_valid [run_genesis, run_alice\<lparr>blk_timestamp := ''1999-12-31 23:59:59.000000''\<rparr>] \<and>
   blk_proof run_alice \<noteq> - 2 \<and>
   is_chain_valid [run_genesis, run_alice\<lparr>blk_proof := - 2\<rparr>] \<and>
   blk_data run_alice \<noteq> ''mallory-7988'' \<and>
   is_chain_valid [run_genesis, run_alice\<lparr>blk_data := ''mallory-7988''\<rparr>] \<and>
   blk_index run_alice \<noteq> 17170 \<and>
   is_chain_valid [run_genesis, run_alice\<lparr>blk_index := 17170\<rparr>]"
  by (simp add: is_chain_valid_def validate_block_def run_blocks digest_eval run_digests)

text \<open>
  C5, amended. In a valid chain, giving a block after the first another previous hash makes
  \<^verbatim>\<open>is_chain_valid\<close> return false. Replacing such a block by any block is detected exactly
  when the new block does not pass \<^verbatim>\<open>validate_block\<close> against the block before it or the
  block after it, if there is one, does not pass against the new block. Giving the last block
  another timestamp is not detected.
\<close>

theorem tamper_detection:
  assumes "is_chain_valid chain" and "0 < i" and "i < length chain"
  shows "(h \<noteq> blk_previous_hash (chain ! i) \<longrightarrow>
            \<not> is_chain_valid (chain[i := (chain ! i)\<lparr>blk_previous_hash := h\<rparr>])) \<and>
         (is_chain_valid (chain[i := block']) \<longleftrightarrow>
            validate_block block' (chain ! (i - 1)) \<and>
            (i + 1 < length chain \<longrightarrow> validate_block (chain ! (i + 1)) block')) \<and>
         (i + 1 = length chain \<longrightarrow>
            is_chain_valid (chain[i := (chain ! i)\<lparr>blk_timestamp := t\<rparr>]))"
proof -
  from assms have v: "validate_block (chain ! i) (chain ! (i - 1))"
    by (simp add: is_chain_valid_iff)
  then have "blk_previous_hash (chain ! i) = hash (chain ! (i - 1))"
    by (simp add: validate_block_iff)
  then have "\<not> validate_block ((chain ! i)\<lparr>blk_previous_hash := h\<rparr>) (chain ! (i - 1))"
    if "h \<noteq> blk_previous_hash (chain ! i)"
    using that by (simp add: validate_block_iff)
  moreover from v have "validate_block ((chain ! i)\<lparr>blk_timestamp := t\<rparr>) (chain ! (i - 1))"
    by (simp add: validate_block_iff)
  then have "is_chain_valid (chain[i := (chain ! i)\<lparr>blk_timestamp := t\<rparr>])"
    if "i + 1 = length chain"
    using that is_chain_valid_update [OF assms, of "(chain ! i)\<lparr>blk_timestamp := t\<rparr>"] by simp
  ultimately show ?thesis using is_chain_valid_update [OF assms] by blast
qed

theorem tamper_detection_witness:
  "is_chain_valid [run_genesis, run_alice, run_bob, run_carol] \<and>
   \<not> is_chain_valid ([run_genesis, run_alice, run_bob, run_carol]
                      [2 := run_bob\<lparr>blk_previous_hash := ''0''\<rparr>]) \<and>
   is_chain_valid ([run_genesis, run_alice, run_bob, run_carol][2 := run_bob_resealed])
     = (validate_block run_bob_resealed run_alice \<and> validate_block run_carol run_bob_resealed) \<and>
   is_chain_valid ([run_genesis, run_alice, run_bob, run_carol]
                   [3 := run_carol\<lparr>blk_timestamp := ''1999-12-31 23:59:59.000000''\<rparr>])"
proof -
  have v: "is_chain_valid [run_genesis, run_alice, run_bob, run_carol]"
    by (rule run_valid_carol)
  have i: "0 < (2 :: nat)" "2 < length [run_genesis, run_alice, run_bob, run_carol]" by simp_all
  have j: "0 < (3 :: nat)" "3 < length [run_genesis, run_alice, run_bob, run_carol]" by simp_all
  have h: "''0'' \<noteq> blk_previous_hash ([run_genesis, run_alice, run_bob, run_carol] ! 2)"
    using hash_not_0 [of run_alice] by (auto simp: run_bob_def create_block_def)
  from tamper_detection [OF v i, of "''0''" run_bob_resealed] h
  have a: "\<not> is_chain_valid ([run_genesis, run_alice, run_bob, run_carol]
                      [2 := run_bob\<lparr>blk_previous_hash := ''0''\<rparr>])"
    "is_chain_valid ([run_genesis, run_alice, run_bob, run_carol][2 := run_bob_resealed])
     = (validate_block run_bob_resealed run_alice \<and> validate_block run_carol run_bob_resealed)"
    by simp_all
  have k: "3 + 1 = length [run_genesis, run_alice, run_bob, run_carol]" by simp
  from tamper_detection [OF v j, where t = "''1999-12-31 23:59:59.000000''",
      THEN conjunct2, THEN conjunct2, rule_format, OF k]
  have "is_chain_valid ([run_genesis, run_alice, run_bob, run_carol]
                   [3 := run_carol\<lparr>blk_timestamp := ''1999-12-31 23:59:59.000000''\<rparr>])"
    by simp
  with a v show ?thesis by simp
qed




text \<open>
  C7. The code does not do what the claim says. On a new ledger \<^verbatim>\<open>delete_block(1)\<close> removes
  the genesis block; the empty chain passes \<^verbatim>\<open>is_chain_valid\<close>, and \<^verbatim>\<open>mine_block(data)\<close>
  then raises at \<^verbatim>\<open>self.chain[-1]\<close> for every data string: no block is appended. (On a
  chain that is not empty the call does what the claim says, see \<open>mine_block_appends\<close>.)
\<close>

theorem mine_block_raises_on_empty_chain:
  "delete_block 1 (init t0) = Some ([], [''!FAILED!'']) \<and> reachable t0 [] \<and>
   is_chain_valid [] \<and> mine_block now data [] = Some (Inl IndexError)"
proof -
  have d: "delete_block 1 (init t0) = Some ([], [''!FAILED!''])"
    by (simp add: delete_block_def Let_def init_def initial_block_def create_block_def)
  from reachable_delete_block [OF reachable_init d] have "reachable t0 []" .
  with d show ?thesis
    by (simp add: is_chain_valid_def mine_block_def get_previous_block_def)
qed

text \<open>
  C8. The code does not do what the claim says. After \<^verbatim>\<open>mine_block("alice-111529")\<close> on a
  new ledger, \<^verbatim>\<open>delete_block(1)\<close> removes the genesis block, and \<^verbatim>\<open>clear\<close> then keeps the
  block of alice.
\<close>

theorem clear_keeps_mined_block:
  "delete_block 1 [run_genesis, run_alice] = Some ([run_alice], [''!FAILED!'']) \<and>
   reachable ''2024-01-01 10:00:00.000000'' [run_alice] \<and>
   clear [run_alice] = Inr [run_alice] \<and>
   run_alice \<noteq> initial_block ''2024-01-01 10:00:00.000000''"
proof -
  have d: "delete_block 1 [run_genesis, run_alice] = Some ([run_alice], [''!FAILED!''])"
    by (simp add: delete_block_def Let_def run_blocks)
  from reachable_delete_block [OF run_reachable_alice d]
  have "reachable ''2024-01-01 10:00:00.000000'' [run_alice]" .
  with d show ?thesis by (simp add: clear_def run_blocks)
qed

text \<open>
  C9. When no block of the chain has the given proof, \<^verbatim>\<open>delete_block(proof)\<close> returns
  without an error, prints nothing and leaves the chain as it was.
\<close>

theorem delete_block_not_found:
  assumes "\<forall>block \<in> set chain. blk_proof block \<noteq> proof"
  shows "delete_block proof chain = Some (chain, [])"
proof -
  from assms have "find (\<lambda>block. blk_proof block = proof) chain = None"
    by (simp add: find_None_iff)
  then show ?thesis by (simp add: delete_block_def)
qed

theorem delete_block_not_found_witness:
  "blk_proof run_genesis \<noteq> 7 \<and> blk_proof run_alice \<noteq> 7 \<and>
   delete_block 7 [run_genesis, run_alice] = Some ([run_genesis, run_alice], [])"
proof -
  have h: "\<forall>block \<in> set [run_genesis, run_alice]. blk_proof block \<noteq> 7"
    by (simp add: run_blocks)
  from delete_block_not_found [OF h] h show ?thesis by simp
qed

text \<open>
  C10. \<^verbatim>\<open>mine_block(data)\<close> does not modify a block of the chain: when the call returns,
  the new chain is the old chain with the returned block appended, so every position of the
  old chain holds the block it held before.
\<close>

theorem mine_block_frame:
  assumes "mine_block now data chain = Some (Inr (block, chain'))"
  shows "chain' = chain @ [block] \<and> length chain' = length chain + 1 \<and>
         (\<forall>i < length chain. chain' ! i = chain ! i)"
  using assms
  by (auto simp: mine_block_def get_previous_block_def Let_def nth_append
           split: if_splits option.splits)

theorem mine_block_frame_witness:
  "mine_block ''2024-01-01 10:02:00.000000'' ''bob-31286'' [run_genesis, run_alice]
     = Some (Inr (run_bob, [run_genesis, run_alice, run_bob])) \<and>
   [run_genesis, run_alice, run_bob] = [run_genesis, run_alice] @ [run_bob] \<and>
   length [run_genesis, run_alice, run_bob] = length [run_genesis, run_alice] + 1 \<and>
   [run_genesis, run_alice, run_bob] ! 0 = [run_genesis, run_alice] ! 0 \<and>
   [run_genesis, run_alice, run_bob] ! 1 = [run_genesis, run_alice] ! 1"
  using mine_block_frame [OF run_mine_bob] run_mine_bob by simp

end
